theory Spec2Isabelle
  imports Main
begin

section \<open>Budding: an ENA fastq validator (budding.py)\<close>

text \<open>
  The program talks to two NCBI endpoints through \<^verbatim>\<open>requests.get\<close>, to the ENA file
  report through a \<^verbatim>\<open>wget\<close> subprocess, to one cache file and to a directory of fastq
  files. All of that is an explicit \<open>world\<close> that every function takes and returns; every
  Python exception is a value of \<open>error\<close> on the left of a sum.
\<close>

subsection \<open>Values, errors and the world\<close>

datatype pyval = PyStr string | PyInt int | PyNone

record request =
  url :: string
  params :: "(string \<times> pyval) list"

text \<open>An \<^verbatim>\<open>xml.etree.ElementTree.Element\<close>: tag, attributes, text and children.\<close>

datatype element =
  Element (tag: string) (attrib: "(string \<times> string) list") (etext: "string option")
    (children: "element list")

text \<open>
  A \<^verbatim>\<open>requests.Response\<close>. \<open>xml\<close> is what \<^verbatim>\<open>ET.fromstring(res.text)\<close> gives for this
  body, \<open>None\<close> when the parser raises: the XML parser is library code and is taken as given.
\<close>

record response =
  ok :: bool
  res_text :: string
  xml :: "element option"

datatype error =
    KeyError string
  | IndexError
  | ValueError string
  | TypeError
  | FileNotFoundError string
  | OSError string
  | ConnectionError
  | ParseError
  | Failed_after string nat
      \<comment> \<open>\<^verbatim>\<open>Exception("Failed to {} after {} attempts".format(description, num_retries))\<close>\<close>
  | HTTP_Failure string response
      \<comment> \<open>\<^verbatim>\<open>Exception("HTTP Failure when requesting ...: {}: {}".format(res, res.text))\<close>\<close>
  | Error_fetching_metadata "string option"
  | No_IdList string
  | No_WebEnv string

text \<open>What the program prints or logs; the two messages that format an integer keep it.\<close>

datatype event =
    Print string
  | Print_failed string int  \<comment> \<open>\<^verbatim>\<open>print(f"{ass}_{dig} failed!")\<close>\<close>
  | Print_failed_count nat  \<comment> \<open>\<^verbatim>\<open>print(f'md5 failed count: {fail_cnt}')\<close>\<close>
  | Warn_not_ok string response
  | Warn_exception string error
  | Warn_sleeping nat
  | Warn_retrying nat nat

text \<open>
  \<open>http n req\<close> is what the \<open>n\<close>-th \<^verbatim>\<open>requests.get\<close> of the process yields when it sends
  \<open>req\<close> (a raised exception or a response), \<open>wget n u\<close> the standard output of the \<open>n\<close>-th
  \<^verbatim>\<open>wget -qO- u\<close>. \<open>cache_file\<close> is the text of \<^verbatim>\<open>~/.ena_fastq_validator\<close>, \<open>None\<close> when
  the file does not exist. \<open>listdir\<close> and \<open>file_md5\<close> are the file system as
  \<^verbatim>\<open>os.listdir\<close> and \<^verbatim>\<open>check_md5sum\<close> see it (the MD5 digest itself is library code).
\<close>

record world =
  environ :: "string \<rightharpoonup> string"
  http :: "nat \<Rightarrow> request \<Rightarrow> error + response"
  requested :: "request list"
  slept :: "nat list"
  wget :: "nat \<Rightarrow> string \<Rightarrow> string"
  wget_calls :: "string list"
  cache_file :: "string option"
  listdir :: "string \<rightharpoonup> string list"
  file_md5 :: "string \<rightharpoonup> string"
  printed :: "event list"

definition emit :: "event \<Rightarrow> world \<Rightarrow> world" where
  "emit e w = w\<lparr>printed := printed w @ [e]\<rparr>"

definition sleep :: "nat \<Rightarrow> world \<Rightarrow> world" where
  "sleep s w = w\<lparr>slept := slept w @ [s]\<rparr>"

definition requests_get :: "request \<Rightarrow> world \<Rightarrow> (error + response) \<times> world" where
  "requests_get req w = (http w (length (requested w)) req, w\<lparr>requested := requested w @ [req]\<rparr>)"

definition NCBI_API_KEY_ENV :: string where
  "NCBI_API_KEY_ENV = ''NCBI_API_KEY''"

definition add_api_key :: "(string \<times> pyval) list \<Rightarrow> world \<Rightarrow> (string \<times> pyval) list" where
  "add_api_key other_params w =
     (case environ w NCBI_API_KEY_ENV of
        Some k \<Rightarrow> other_params @ [(''api_key'', PyStr k)]
      | None \<Rightarrow> other_params)"

subsection \<open>The retry executor\<close>

definition num_retries :: nat where
  "num_retries = 3"

definition sleep_time :: nat where
  "sleep_time = 60"

definition retrying :: "nat \<Rightarrow> world \<Rightarrow> world" where
  "retrying i w =
     (if i < num_retries - 1 then emit (Warn_retrying (i + 1) (num_retries - 1)) w else w)"

text \<open>
  The body of \<^verbatim>\<open>for i in range(num_retries)\<close>, over the indices still to run; falling out
  of the loop reaches the final \<^verbatim>\<open>raise\<close>.
\<close>

fun retry_loop ::
  "string \<Rightarrow> (world \<Rightarrow> (error + response) \<times> world) \<Rightarrow> nat list \<Rightarrow> world
    \<Rightarrow> (error + response) \<times> world" where
  "retry_loop description func [] w = (Inl (Failed_after description num_retries), w)"
| "retry_loop description func (i # rest) w =
     (case func w of
        (Inr this_res, w1) \<Rightarrow>
          if \<not> ok this_res then
            retry_loop description func rest
              (retrying i (sleep 60 (emit (Warn_sleeping sleep_time)
                 (emit (Warn_not_ok description this_res) w1))))
          else (Inr this_res, w1)
      | (Inl e, w1) \<Rightarrow>
          retry_loop description func rest
            (retrying i (sleep 60 (emit (Warn_sleeping sleep_time)
               (emit (Warn_exception description e) w1)))))"

definition retry_request ::
  "string \<Rightarrow> (world \<Rightarrow> (error + response) \<times> world) \<Rightarrow> world \<Rightarrow> (error + response) \<times> world" where
  "retry_request description func w = retry_loop description func [0..<num_retries] w"

text \<open>An attempt fails when it raises or when its response is not OK.\<close>

definition failed :: "error + response \<Rightarrow> bool" where
  "failed r = (case r of Inl e \<Rightarrow> True | Inr res \<Rightarrow> \<not> ok res)"

subsection \<open>Strings, lists and dictionaries as Python has them\<close>

definition newline :: char where
  "newline = CHR 0x0A"

definition tab :: char where
  "tab = CHR 0x09"

text \<open>\<^verbatim>\<open>s.split(sep)\<close> for a separator of one character: never empty, \<open>[[]]\<close> on \<open>[]\<close>.\<close>

fun py_split :: "char \<Rightarrow> string \<Rightarrow> string list" where
  "py_split sep [] = [[]]"
| "py_split sep (c # cs) =
     (if c = sep then [] # py_split sep cs
      else (case py_split sep cs of [] \<Rightarrow> [[c]] | x # xs \<Rightarrow> (c # x) # xs))"

text \<open>\<^verbatim>\<open>f.readlines()\<close>: the lines of a text, each with its line terminator.\<close>

fun readlines :: "string \<Rightarrow> string list" where
  "readlines [] = []"
| "readlines (c # cs) =
     (if c = newline then [c] # readlines cs
      else (case readlines cs of [] \<Rightarrow> [[c]] | x # xs \<Rightarrow> (c # x) # xs))"

text \<open>\<^verbatim>\<open>xs[i]\<close>: a negative index counts from the end, an index out of range raises.\<close>

definition py_index :: "'a list \<Rightarrow> int \<Rightarrow> error + 'a" where
  "py_index xs i =
     (if 0 \<le> i \<and> i < int (length xs) then Inr (xs ! nat i)
      else if i < 0 \<and> - int (length xs) \<le> i then Inr (xs ! nat (int (length xs) + i))
      else Inl IndexError)"

text \<open>\<^verbatim>\<open>s.replace("\n", "")\<close>.\<close>

definition replace_newline :: "string \<Rightarrow> string" where
  "replace_newline s = filter (\<lambda>c. c \<noteq> newline) s"

text \<open>
  \<^verbatim>\<open>int(s)\<close>, with a character read as the code point of its number (below 256): white
  space around, an optional sign, then decimal digits. The white space that \<^verbatim>\<open>int\<close> removes
  is the ASCII one (space, tab, line feed, vertical tab, form feed, carriage return) and the
  two other white-space code points below 256, 0x85 and 0xA0; the separators 0x1C to 0x1F
  stay and make the text no integer. The digit grouping with underscores that \<^verbatim>\<open>int\<close> also
  reads is left out, since the program only passes a piece of a name that was split at the
  underscores; so is the limit of 4300 digits of newer interpreters, which no file name
  reaches.
\<close>

definition is_space :: "char \<Rightarrow> bool" where
  "is_space c = (c \<in> set [CHR '' '', CHR 0x09, CHR 0x0A, CHR 0x0B, CHR 0x0C, CHR 0x0D,
                          CHR 0x85, CHR 0xA0])"

definition is_digit :: "char \<Rightarrow> bool" where
  "is_digit c = (c \<in> set ''0123456789'')"

definition digit_val :: "char \<Rightarrow> nat" where
  "digit_val c = of_char c - 48"

definition strip :: "string \<Rightarrow> string" where
  "strip s = rev (dropWhile is_space (rev (dropWhile is_space s)))"

definition py_int :: "string \<Rightarrow> error + int" where
  "py_int s =
     (let t = strip s;
          neg = (t \<noteq> [] \<and> hd t = CHR ''-'');
          ds = (if t \<noteq> [] \<and> (hd t = CHR ''-'' \<or> hd t = CHR ''+'') then tl t else t)
      in if ds \<noteq> [] \<and> list_all is_digit ds
         then Inr ((if neg then - 1 else 1) * int (foldl (\<lambda>a c. 10 * a + digit_val c) 0 ds))
         else Inl (ValueError s))"

text \<open>\<^verbatim>\<open>os.path.join(dir, name)\<close> for a relative \<open>name\<close>, as directory entries are.\<close>

definition path_join :: "string \<Rightarrow> string \<Rightarrow> string" where
  "path_join d name = (if d = [] \<or> last d = CHR ''/'' then d @ name else d @ ''/'' @ name)"

text \<open>An \<^verbatim>\<open>OrderedDict\<close> with string keys and values, and \<^verbatim>\<open>d[k] = v\<close> on it.\<close>

type_synonym pydict = "(string \<times> string) list"

fun dict_set :: "string \<Rightarrow> string \<Rightarrow> pydict \<Rightarrow> pydict" where
  "dict_set k v [] = [(k, v)]"
| "dict_set k v ((k', v') # d) = (if k = k' then (k, v) # d else (k', v') # dict_set k v d)"

subsection \<open>ElementTree queries\<close>

definition find_child :: "string \<Rightarrow> element \<Rightarrow> element option" where
  "find_child t e = List.find (\<lambda>c. tag c = t) (children e)"

definition findall :: "string \<Rightarrow> element \<Rightarrow> element list" where
  "findall t e = filter (\<lambda>c. tag c = t) (children e)"

text \<open>\<^verbatim>\<open>pkg.findall('./RUN_SET/RUN')\<close>: the RUN children of the RUN_SET children, in document order.\<close>

definition findall_runs :: "element \<Rightarrow> element list" where
  "findall_runs pkg = concat (map (findall ''RUN'') (findall ''RUN_SET'' pkg))"

subsection \<open>Run resolution: efetch_accession_from_ids\<close>

text \<open>
  The dictionaries of \<^verbatim>\<open>efetch_accession_from_ids\<close> are objects: \<^verbatim>\<open>data_frames\<close> holds
  references to them, and \<^verbatim>\<open>d['run'] = ...\<close> changes the object that every reference
  sees. The store is the list of the dictionaries allocated so far, a reference is an index
  into it, and \<^verbatim>\<open>data_frames\<close> is a list of references.

  Inner loop, \<^verbatim>\<open>for run in pkg.findall('./RUN_SET/RUN')\<close>, with \<open>d\<close> the reference made for
  this package. \<^verbatim>\<open>try_get\<close> reads the attribute that \<^verbatim>\<open>accession_here\<close> has just read,
  so it returns that value and none of its handlers runs.
\<close>

fun run_loop ::
  "string set option \<Rightarrow> nat \<Rightarrow> element list \<Rightarrow> pydict list \<times> nat list
    \<Rightarrow> error + (pydict list \<times> nat list)" where
  "run_loop accessions_set d [] s = Inr s"
| "run_loop accessions_set d (run # rest) (store, data_frames) =
     (case map_of (attrib run) ''accession'' of
        None \<Rightarrow> Inl (KeyError ''accession'')
      | Some accession_here \<Rightarrow>
          if (case accessions_set of None \<Rightarrow> True | Some S \<Rightarrow> accession_here \<in> S)
          then run_loop accessions_set d rest
                 (store[d := dict_set ''run'' accession_here (store ! d)], data_frames @ [d])
          else run_loop accessions_set d rest (store, data_frames))"

text \<open>
  Outer loop, \<^verbatim>\<open>for pkg in root.findall('EXPERIMENT_PACKAGE')\<close>:
  \<^verbatim>\<open>d = collections.OrderedDict()\<close> allocates one dictionary per package.
\<close>

fun pkg_loop ::
  "string set option \<Rightarrow> element list \<Rightarrow> pydict list \<times> nat list
    \<Rightarrow> error + (pydict list \<times> nat list)" where
  "pkg_loop accessions_set [] s = Inr s"
| "pkg_loop accessions_set (pkg # rest) (store, data_frames) =
     (case run_loop accessions_set (length store) (findall_runs pkg) (store @ [[]], data_frames) of
        Inl e \<Rightarrow> Inl e
      | Inr s \<Rightarrow> pkg_loop accessions_set rest s)"

text \<open>\<^verbatim>\<open>pd.DataFrame(data_frames)\<close>: one row per reference, read when the frame is built.\<close>

definition DataFrame :: "pydict list \<times> nat list \<Rightarrow> pydict list" where
  "DataFrame s = map (\<lambda>d. fst s ! d) (snd s)"

definition efetch_request :: "pyval \<Rightarrow> world \<Rightarrow> request" where
  "efetch_request webenv w =
     \<lparr>url = ''https://eutils.ncbi.nlm.nih.gov/entrez/eutils/efetch.fcgi'',
      params = add_api_key
        [(''db'', PyStr ''sra''), (''tool'', PyStr ''Budding''), (''email'', PyStr ''lirui@big.ac.cn''),
         (''webenv'', webenv), (''query_key'', PyInt 1)] w\<rparr>"

definition efetch_accession_from_ids ::
  "pyval \<Rightarrow> string list option \<Rightarrow> nat \<Rightarrow> world \<Rightarrow> (error + pydict list) \<times> world" where
  "efetch_accession_from_ids webenv accessions num_ids w =
     (case retry_request ''efetch_from_ids'' (\<lambda>w'. requests_get (efetch_request webenv w') w')
             (emit (Print ''Fetching accession using SRA IDs from NCBI...'') w) of
        (Inl e, w1) \<Rightarrow> (Inl e, w1)
      | (Inr res, w1) \<Rightarrow>
          if \<not> ok res then (Inl (HTTP_Failure ''efetch from IDs'' res), w1)
          else (case xml res of
            None \<Rightarrow> (Inl ParseError, w1)
          | Some root \<Rightarrow>
              let w2 = emit (Print ''Got accession using SRA IDs!'') w1 in
              (case find_child ''ERROR'' root of
                 Some err \<Rightarrow> (Inl (Error_fetching_metadata (etext err)), w2)
               | None \<Rightarrow>
                   (case pkg_loop (map_option set accessions)
                           (findall ''EXPERIMENT_PACKAGE'' root) ([], []) of
                      Inl e \<Rightarrow> (Inl e, w2)
                    | Inr s \<Rightarrow> (Inr (DataFrame s), w2)))))"

subsection \<open>Run resolution: fetch_runs_from_bioproject\<close>

definition retmax :: nat where
  "retmax = 10000"

definition esearch_request :: "string \<Rightarrow> request" where
  "esearch_request bioproject_accession =
     \<lparr>url = ''https://eutils.ncbi.nlm.nih.gov/entrez/eutils/esearch.fcgi'',
      params =
        [(''db'', PyStr ''sra''), (''term'', PyStr (bioproject_accession @ ''[BioProject]'')),
         (''tool'', PyStr ''Budding''), (''email'', PyStr ''lirui@big.ac.cn''),
         (''retmax'', PyInt (int retmax)), (''usehistory'', PyStr ''y'')]\<rparr>"

text \<open>
  \<^verbatim>\<open>metadata['run'].to_list()\<close>: a frame built from no rows has no column and the lookup
  raises. Every row that \<^verbatim>\<open>efetch_accession_from_ids\<close> builds has the key, so the NaN that
  pandas would put where a row lacks it never arises; the model writes it \<open>''nan''\<close>.
\<close>

definition column :: "string \<Rightarrow> pydict list \<Rightarrow> error + string list" where
  "column key rows =
     (if rows = [] then Inl (KeyError key)
      else Inr (map (\<lambda>r. case map_of r key of Some v \<Rightarrow> v | None \<Rightarrow> ''nan'') rows))"

definition fetch_runs_from_bioproject :: "string \<Rightarrow> world \<Rightarrow> (error + string list) \<times> world" where
  "fetch_runs_from_bioproject bioproject_accession w =
     (case requests_get (esearch_request bioproject_accession) w of
        (Inl e, w1) \<Rightarrow> (Inl e, w1)
      | (Inr res, w1) \<Rightarrow>
          if \<not> ok res then (Inl (HTTP_Failure ''search from bioproject'' res), w1)
          else (case xml res of
            None \<Rightarrow> (Inl ParseError, w1)
          | Some root \<Rightarrow>
              let w2 = emit (Print (''Got SRA IDs using BioProject: '' @ bioproject_accession)) w1 in
              (case find_child ''IdList'' root of
                 None \<Rightarrow> (Inl (No_IdList (res_text res)), w2)
               | Some id_list_element \<Rightarrow>
                   let sra_ids = map etext (children id_list_element);
                       w3 = (if length sra_ids = retmax
                             then emit (Print ''Unexpectedly found the maximum number of results for this query, possibly some results will be missing'') w2
                             else w2) in
                   (case find_child ''WebEnv'' root of
                      None \<Rightarrow> (Inl (No_WebEnv (res_text res)), w3)
                    | Some webenv_element \<Rightarrow>
                        let webenv = (case etext webenv_element of None \<Rightarrow> PyNone | Some t \<Rightarrow> PyStr t) in
                        (case efetch_accession_from_ids webenv None (length sra_ids) w3 of
                           (Inl e, w4) \<Rightarrow> (Inl e, w4)
                         | (Inr metadata, w4) \<Rightarrow> (column ''run'' metadata, w4))))))"

subsection \<open>The checksum catalog: get_md5_from_ena\<close>

definition md5_cache_dir :: string where
  "md5_cache_dir = ''~/.ena_fastq_validator''"

type_synonym md5_dic = "string \<rightharpoonup> string list"

text \<open>The loop over the lines of the cache file (lines 150 to 152).\<close>

fun cache_loop ::
  "string list \<Rightarrow> string list \<times> md5_dic \<Rightarrow> error + (string list \<times> md5_dic)" where
  "cache_loop [] s = Inr s"
| "cache_loop (line # rest) (cache_fastq_lis, md5_dic) =
     (case py_index (py_split tab line) 1 of
        Inl e \<Rightarrow> Inl e
      | Inr field \<Rightarrow>
          cache_loop rest
            (cache_fastq_lis @ [hd (py_split tab line)],
             md5_dic(hd (py_split tab line) \<mapsto> py_split CHR '';'' field)))"

definition query_url :: "string \<Rightarrow> string" where
  "query_url fastq_ass =
     ''http://www.ebi.ac.uk/ena/portal/api/filereport?accession='' @ fastq_ass
       @ ''&result=read_run&fields=fastq_md5''"

definition run_wget :: "string \<Rightarrow> world \<Rightarrow> string \<times> world" where
  "run_wget u w = (wget w (length (wget_calls w)) u, w\<lparr>wget_calls := wget_calls w @ [u]\<rparr>)"

text \<open>
  The query loop, \<^verbatim>\<open>for fastq in fq_bar\<close>, the same text in both branches of the source;
  the state is \<^verbatim>\<open>res_lis\<close> and \<^verbatim>\<open>md5_dic\<close>.
\<close>

fun query_loop ::
  "string list \<Rightarrow> string list \<times> md5_dic \<Rightarrow> world \<Rightarrow> (error + (string list \<times> md5_dic)) \<times> world" where
  "query_loop [] s w = (Inr s, w)"
| "query_loop (fastq # rest) (res_lis, md5_dic) w =
     (let fastq_ass = hd (py_split CHR ''_'' fastq);
          (stdout, w1) = run_wget (query_url fastq_ass) w
      in case py_index (py_split newline stdout) 1 of
           Inl e \<Rightarrow> (Inl e, w1)
         | Inr line \<Rightarrow>
             (case py_index (py_split tab line) 1 of
                Inl e \<Rightarrow> (Inl e, w1)
              | Inr md5s \<Rightarrow>
                  query_loop rest
                    (res_lis @ [line], md5_dic(hd (py_split tab line) \<mapsto> py_split CHR '';'' md5s))
                    w1))"

text \<open>\<^verbatim>\<open>with open(md5_cache_dir, 'a') as out\<close>: the file is created when it is missing.\<close>

definition append_cache :: "string list \<Rightarrow> world \<Rightarrow> world" where
  "append_cache res_lis w =
     w\<lparr>cache_file :=
         Some ((case cache_file w of None \<Rightarrow> [] | Some old \<Rightarrow> old)
               @ concat (map (\<lambda>md5. md5 @ [newline]) res_lis))\<rparr>"

text \<open>
  \<^verbatim>\<open>list(full_fastq_set - cache_fastq_set)\<close>. Python leaves the order of a set open; the
  model lists the difference in the order of first occurrence in \<^verbatim>\<open>fastq_lis\<close>.
\<close>

definition need_query :: "string list \<Rightarrow> string list \<Rightarrow> string list" where
  "need_query fastq_lis cache_fastq_lis =
     remdups (filter (\<lambda>r. r \<notin> set cache_fastq_lis) fastq_lis)"

definition get_md5_from_ena :: "string \<Rightarrow> bool \<Rightarrow> world \<Rightarrow> (error + md5_dic) \<times> world" where
  "get_md5_from_ena accession cache w =
     (case fetch_runs_from_bioproject accession (emit (Print ''Start generating md5 dictionary...'') w) of
        (Inl e, w1) \<Rightarrow> (Inl e, w1)
      | (Inr fastq_lis, w1) \<Rightarrow>
          if cache then
            (let w2 = emit (Print ''Using cache to search md5...'') w1 in
             case cache_file w2 of
               None \<Rightarrow> (Inl (FileNotFoundError md5_cache_dir), w2)
             | Some content \<Rightarrow>
                 (case cache_loop (readlines content) ([], Map.empty) of
                    Inl e \<Rightarrow> (Inl e, w2)
                  | Inr (cache_fastq_lis, md5_dic) \<Rightarrow>
                      let need_query_lis = need_query fastq_lis cache_fastq_lis in
                      if length need_query_lis = 0 then
                        (Inr md5_dic,
                         emit (Print ''All runs are cached, no need to fetch md5 from ENA'') w2)
                      else
                        (case query_loop need_query_lis ([], md5_dic)
                                (emit (Print ''Some runs are not cached, start fetching md5 from ENA, this may take a while...'') w2) of
                           (Inl e, w3) \<Rightarrow> (Inl e, w3)
                         | (Inr (res_lis, md5_dic'), w3) \<Rightarrow>
                             (Inr md5_dic',
                              emit (Print ''md5 dictionary generated!'') (append_cache res_lis w3)))))
          else
            (case query_loop fastq_lis ([], Map.empty)
                    (emit (Print ''Start fetching md5 from ENA..., this may take a while'') w1) of
               (Inl e, w3) \<Rightarrow> (Inl e, w3)
             | (Inr (res_lis, md5_dic'), w3) \<Rightarrow>
                 (Inr md5_dic', emit (Print ''md5 dictionary generated!'') (append_cache res_lis w3))))"

subsection \<open>The file validator: validate and main\<close>

definition check_md5sum :: "string \<Rightarrow> world \<Rightarrow> error + string" where
  "check_md5sum file_path w =
     (case file_md5 w file_path of None \<Rightarrow> Inl (OSError file_path) | Some h \<Rightarrow> Inr h)"

text \<open>
  \<^verbatim>\<open>int(fastq.split(".")[0].split("_")[1])\<close>, the file index that a name carries: the
  second piece is missing (IndexError) or is no integer (ValueError) when the name has no
  such index.
\<close>

definition file_index :: "string \<Rightarrow> error + int" where
  "file_index fastq =
     (case py_index (py_split CHR ''_'' (hd (py_split CHR ''.'' fastq))) 1 of
        Inl e \<Rightarrow> Inl e
      | Inr piece \<Rightarrow> py_int piece)"

text \<open>
  One turn of \<^verbatim>\<open>for fastq in fastq_lis\<close> up to the comparison: the accession, the index
  and whether the checksums agree, or the exception that the turn raises.
\<close>

definition validate_file ::
  "string \<Rightarrow> md5_dic \<Rightarrow> string \<Rightarrow> world \<Rightarrow> error + (string \<times> int \<times> bool)" where
  "validate_file fastq_dir md5_dic fastq w =
     (let ass = hd (py_split CHR ''_'' fastq) in
      case file_index fastq of
        Inl e \<Rightarrow> Inl e
      | Inr dig \<Rightarrow>
          (case check_md5sum (path_join fastq_dir fastq) w of
             Inl e \<Rightarrow> Inl e
           | Inr actual_md5 \<Rightarrow>
               (case md5_dic ass of
                  None \<Rightarrow> Inl (KeyError ass)
                | Some entry \<Rightarrow>
                    (case py_index entry (dig - 1) of
                       Inl e \<Rightarrow> Inl e
                     | Inr v \<Rightarrow> Inr (ass, dig, actual_md5 = replace_newline v)))))"

fun validate_loop ::
  "string \<Rightarrow> md5_dic \<Rightarrow> string list \<Rightarrow> nat \<Rightarrow> world \<Rightarrow> (error + nat) \<times> world" where
  "validate_loop fastq_dir md5_dic [] fail_cnt w = (Inr fail_cnt, w)"
| "validate_loop fastq_dir md5_dic (fastq # rest) fail_cnt w =
     (case validate_file fastq_dir md5_dic fastq w of
        Inl e \<Rightarrow> (Inl e, w)
      | Inr (ass, dig, same) \<Rightarrow>
          if same then validate_loop fastq_dir md5_dic rest fail_cnt w
          else validate_loop fastq_dir md5_dic rest (fail_cnt + 1) (emit (Print_failed ass dig) w))"

definition validate :: "string \<Rightarrow> string \<Rightarrow> world \<Rightarrow> (error + unit) \<times> world" where
  "validate accession dir w =
     (case listdir w dir of
        None \<Rightarrow> (Inl (FileNotFoundError dir), w)
      | Some fastq_lis \<Rightarrow>
          (case get_md5_from_ena accession True w of
             (Inl e, w1) \<Rightarrow> (Inl e, w1)
           | (Inr md5_dic, w1) \<Rightarrow>
               (case validate_loop dir md5_dic fastq_lis 0 (emit (Print ''Start calculating md5'') w1) of
                  (Inl e, w2) \<Rightarrow> (Inl e, w2)
                | (Inr fail_cnt, w2) \<Rightarrow>
                    let w3 = emit (Print_failed_count fail_cnt) w2 in
                    (Inr (), if fail_cnt = 0 then emit (Print ''project download success!'') w3 else w3))))"

text \<open>\<^verbatim>\<open>for study in zip(args.accession, args.dir): validate(study[0], study[1])\<close>.\<close>

fun main_loop :: "(string \<times> string) list \<Rightarrow> world \<Rightarrow> (error + unit) \<times> world" where
  "main_loop [] w = (Inr (), w)"
| "main_loop (study # rest) w =
     (case validate (fst study) (snd study) w of
        (Inl e, w1) \<Rightarrow> (Inl e, w1)
      | (Inr u, w1) \<Rightarrow> main_loop rest w1)"

text \<open>
  \<open>main\<close> on the parsed arguments: with \<^verbatim>\<open>nargs='*'\<close> and no default, an option that is not
  given is \<^verbatim>\<open>None\<close>, and \<^verbatim>\<open>zip\<close> raises on it.
\<close>

definition main :: "string list option \<Rightarrow> string list option \<Rightarrow> world \<Rightarrow> (error + unit) \<times> world" where
  "main args_accession args_dir w =
     (case (args_accession, args_dir) of
        (Some accessions, Some dirs) \<Rightarrow> main_loop (zip accessions dirs) w
      | _ \<Rightarrow> (Inl TypeError, w))"

subsection \<open>Notions used in the statements\<close>

text \<open>\<^verbatim>\<open>fastq.split("_")[0]\<close>, the accession that a name or a run identifier starts with.\<close>

abbreviation base_accession :: "string \<Rightarrow> string" where
  "base_accession fastq \<equiv> hd (py_split CHR ''_'' fastq)"

text \<open>
  The naming convention in the words of the specification (section 4.4), for comparison
  with what \<open>file_index\<close> accepts: a name is \<^verbatim>\<open><baseAccession>_<fileIndex>.<ext>\<close>, the
  base accession being the text before the first underscore, the file index the integer,
  counted from 1, between that underscore and the first period after it, and an extension
  after that period.
\<close>

definition spec_naming_convention :: "string \<Rightarrow> bool" where
  "spec_naming_convention name =
     (let baseAccession = takeWhile (\<lambda>c. c \<noteq> CHR ''_'') name;
          after = drop (Suc (length baseAccession)) name;
          fileIndex = takeWhile (\<lambda>c. c \<noteq> CHR ''.'') after;
          ext = drop (Suc (length fileIndex)) after
      in baseAccession \<noteq> [] \<and> length baseAccession < length name
         \<and> fileIndex \<noteq> [] \<and> list_all is_digit fileIndex
         \<and> 1 \<le> foldl (\<lambda>a c. 10 * a + digit_val c) 0 fileIndex
         \<and> length fileIndex < length after \<and> ext \<noteq> [])"

text \<open>Two worlds with the same cache file, ENA queries and directories.\<close>

definition same_disk :: "world \<Rightarrow> world \<Rightarrow> bool" where
  "same_disk w w' =
     (cache_file w' = cache_file w \<and> wget_calls w' = wget_calls w \<and> wget w' = wget w \<and>
      listdir w' = listdir w \<and> file_md5 w' = file_md5 w)"

subsection \<open>Concrete services and worlds\<close>

definition ok_response :: "element \<Rightarrow> response" where
  "ok_response x = \<lparr>ok = True, res_text = [], xml = Some x\<rparr>"

definition unavailable :: response where
  "unavailable = \<lparr>ok = False, res_text = ''Service Unavailable'', xml = None\<rparr>"

text \<open>An esearch answer with one id and a session token.\<close>

definition search_xml :: element where
  "search_xml = Element ''eSearchResult'' [] None
     [Element ''IdList'' [] None [Element ''Id'' [] (Some ''101'') []],
      Element ''WebEnv'' [] (Some ''MCID_1'') []]"

text \<open>An efetch answer: one EXPERIMENT_PACKAGE per list, with one RUN per accession in it.\<close>

definition fetch_xml :: "string list list \<Rightarrow> element" where
  "fetch_xml pkgs = Element ''EXPERIMENT_PACKAGE_SET'' [] None
     (map (\<lambda>runs. Element ''EXPERIMENT_PACKAGE'' [] None
        [Element ''RUN_SET'' [] None
           (map (\<lambda>a. Element ''RUN'' [(''accession'', a)] None []) runs)]) pkgs)"

definition ncbi :: "string list list \<Rightarrow> nat \<Rightarrow> request \<Rightarrow> error + response" where
  "ncbi pkgs n req =
     (if url req = url (esearch_request []) then Inr (ok_response search_xml)
      else Inr (ok_response (fetch_xml pkgs)))"

text \<open>An ENA file report: the header line, then one line of data.\<close>

definition report :: "string \<Rightarrow> string \<Rightarrow> string" where
  "report acc md5s =
     ''run_accession'' @ [tab] @ ''fastq_md5'' @ [newline] @ acc @ [tab] @ md5s @ [newline]"

definition ena :: "nat \<Rightarrow> string \<Rightarrow> string" where
  "ena n u =
     (if u = query_url ''SRR1'' then report ''SRR1'' ''abc;def''
      else if u = query_url ''SRR2'' then report ''SRR2'' ''123''
      else [])"

text \<open>
  A project whose records hold the runs \<open>pkgs\<close>, a cache file \<open>cache\<close>, and a directory
  \<^verbatim>\<open>data\<close> with the files \<open>names\<close>, whose digests are \<open>digests\<close>.
\<close>

definition lab :: "string list list \<Rightarrow> string option \<Rightarrow> string list \<Rightarrow> (string \<rightharpoonup> string) \<Rightarrow> world" where
  "lab pkgs cache names digests =
     \<lparr>environ = Map.empty, http = ncbi pkgs, requested = [], slept = [],
      wget = ena, wget_calls = [], cache_file = cache,
      listdir = [''data'' \<mapsto> names], file_md5 = digests, printed = []\<rparr>"

text \<open>NCBI with the search for one project out of service.\<close>

definition outage :: "string \<Rightarrow> nat \<Rightarrow> request \<Rightarrow> error + response" where
  "outage acc n req =
     (if params req = params (esearch_request acc) then Inl ConnectionError
      else ncbi [[''SRR2'']] n req)"

text \<open>Digests of the files that the directories of the examples hold.\<close>

definition shelf :: "string \<rightharpoonup> string" where
  "shelf = [''data/SRR2_1.fastq'' \<mapsto> ''123'', ''data/SRR2_2.fastq'' \<mapsto> ''456'',
            ''data/SRR9_1.fastq'' \<mapsto> ''789'', ''data/notes.txt'' \<mapsto> ''000'',
            ''data/SRR2_1_notes.fastq'' \<mapsto> ''123'', ''data/SRR2_1'' \<mapsto> ''123'']"

subsection \<open>Basic facts about the world\<close>

lemma requested_emit [simp]: "requested (emit e w) = requested w"
  by (simp add: emit_def)

lemma requested_sleep [simp]: "requested (sleep s w) = requested w"
  by (simp add: sleep_def)

lemma requested_retrying [simp]: "requested (retrying i w) = requested w"
  by (simp add: retrying_def)

lemma http_emit [simp]: "http (emit e w) = http w"
  by (simp add: emit_def)

lemma http_sleep [simp]: "http (sleep s w) = http w"
  by (simp add: sleep_def)

lemma http_retrying [simp]: "http (retrying i w) = http w"
  by (simp add: retrying_def)

lemma slept_emit [simp]: "slept (emit e w) = slept w"
  by (simp add: emit_def)

lemma slept_sleep [simp]: "slept (sleep s w) = slept w @ [s]"
  by (simp add: sleep_def)

lemma slept_retrying [simp]: "slept (retrying i w) = slept w"
  by (simp add: retrying_def)

lemma requests_get_requested [simp]:
  "requested (snd (requests_get req w)) = requested w @ [req]"
  by (simp add: requests_get_def)

lemma requests_get_http [simp]: "http (snd (requests_get req w)) = http w"
  by (simp add: requests_get_def)

lemma requests_get_slept [simp]: "slept (snd (requests_get req w)) = slept w"
  by (simp add: requests_get_def)

lemma requests_get_fst [simp]:
  "fst (requests_get req w) = http w (length (requested w)) req"
  by (simp add: requests_get_def)

subsection \<open>The retry executor gives up after three attempts\<close>

lemma retry_loop_all_fail:
  "\<forall>n req. failed (http w n req) \<Longrightarrow>
   fst (retry_loop d (\<lambda>w'. requests_get (mk w') w') is w) = Inl (Failed_after d num_retries) \<and>
   length (requested (snd (retry_loop d (\<lambda>w'. requests_get (mk w') w') is w)))
     = length (requested w) + length is \<and>
   slept (snd (retry_loop d (\<lambda>w'. requests_get (mk w') w') is w))
     = slept w @ replicate (length is) 60"
proof (induction "is" arbitrary: w)
  case Nil
  then show ?case by simp
next
  case (Cons i rest)
  let ?func = "\<lambda>w'. requests_get (mk w') w'"
  obtain r w1 where step: "?func w = (r, w1)"
    by (cases "?func w")
  have r: "r = http w (length (requested w)) (mk w)"
    using step requests_get_fst [of "mk w" w] by simp
  have w1: "requested w1 = requested w @ [mk w]" "http w1 = http w" "slept w1 = slept w"
    using step requests_get_requested [of "mk w" w] requests_get_http [of "mk w" w]
      requests_get_slept [of "mk w" w] by simp_all
  have f0: "failed r"
    using Cons.prems r by simp
  show ?case
  proof (cases r)
    case (Inl e)
    let ?w2 = "retrying i (sleep 60 (emit (Warn_sleeping sleep_time)
                 (emit (Warn_exception d e) w1)))"
    have pre: "\<forall>n req. failed (http ?w2 n req)"
      using Cons.prems w1 by simp
    have unfold: "retry_loop d ?func (i # rest) w = retry_loop d ?func rest ?w2"
      using step Inl by simp
    show ?thesis
      using Cons.IH [OF pre] w1 unfolding unfold
      by (simp add: replicate_app_Cons_same)
  next
    case (Inr res)
    then have nok: "\<not> ok res" using f0 by (simp add: failed_def)
    let ?w2 = "retrying i (sleep 60 (emit (Warn_sleeping sleep_time)
                 (emit (Warn_not_ok d res) w1)))"
    have pre: "\<forall>n req. failed (http ?w2 n req)"
      using Cons.prems w1 by simp
    have unfold: "retry_loop d ?func (i # rest) w = retry_loop d ?func rest ?w2"
      using step Inr nok by simp
    show ?thesis
      using Cons.IH [OF pre] w1 unfolding unfold
      by (simp add: replicate_app_Cons_same)
  qed
qed

text \<open>
  Claim C7. The operations that the program retries are HTTP requests: \<open>mk\<close> builds the
  request of an attempt from the world, as the \<^verbatim>\<open>lambda\<close> passed to \<^verbatim>\<open>_retry_request\<close> does.
  When every attempt fails (the request raises, or its response is not OK), the retry
  executor raises "Failed to ... after 3 attempts", and it has then sent exactly three
  requests and slept 60 seconds after each of them.
\<close>

theorem retry_request_exhausted:
  assumes "\<forall>n req. failed (http w n req)"
  shows "fst (retry_request d (\<lambda>w'. requests_get (mk w') w') w) = Inl (Failed_after d 3)
       \<and> length (requested (snd (retry_request d (\<lambda>w'. requests_get (mk w') w') w)))
           = length (requested w) + 3
       \<and> slept (snd (retry_request d (\<lambda>w'. requests_get (mk w') w') w)) = slept w @ [60, 60, 60]"
  using retry_loop_all_fail [OF assms, of d mk "[0..<num_retries]"]
  by (simp add: retry_request_def num_retries_def numeral_3_eq_3)

theorem retry_request_exhausted_witness:
  "(\<forall>n req. failed (http ((lab [] None [] Map.empty)\<lparr>http := (\<lambda>n req. Inr unavailable)\<rparr>) n req))
   \<and> fst (retry_request ''efetch_from_ids''
            (\<lambda>w'. requests_get (efetch_request (PyStr ''MCID_1'') w') w')
            ((lab [] None [] Map.empty)\<lparr>http := (\<lambda>n req. Inr unavailable)\<rparr>))
       = Inl (Failed_after ''efetch_from_ids'' 3)
   \<and> length (requested (snd (retry_request ''efetch_from_ids''
            (\<lambda>w'. requests_get (efetch_request (PyStr ''MCID_1'') w') w')
            ((lab [] None [] Map.empty)\<lparr>http := (\<lambda>n req. Inr unavailable)\<rparr>)))) = 3"
proof -
  let ?w = "(lab [] None [] Map.empty)\<lparr>http := (\<lambda>n req. Inr unavailable)\<rparr>"
  have h: "\<forall>n req. failed (http ?w n req)"
    by (simp add: failed_def unavailable_def)
  have "requested ?w = []"
    by (simp add: lab_def)
  with retry_request_exhausted [OF h, of "''efetch_from_ids''" "efetch_request (PyStr ''MCID_1'')"] h
  show ?thesis
    by simp
qed

subsection \<open>Run resolution leaves the disk alone\<close>

lemma same_disk_refl [simp]: "same_disk w w"
  by (simp add: same_disk_def)

lemma same_disk_trans: "same_disk w w1 \<Longrightarrow> same_disk w1 w2 \<Longrightarrow> same_disk w w2"
  by (simp add: same_disk_def)

lemma same_disk_emit [simp]: "same_disk w (emit e w')  = same_disk w w'"
  by (simp add: same_disk_def emit_def)

lemma same_disk_sleep [simp]: "same_disk w (sleep s w') = same_disk w w'"
  by (simp add: same_disk_def sleep_def)

lemma same_disk_retrying [simp]: "same_disk w (retrying i w') = same_disk w w'"
  by (simp add: retrying_def)

lemma same_disk_requests_get [simp]: "same_disk w (snd (requests_get req w')) = same_disk w w'"
  by (simp add: same_disk_def requests_get_def)

lemma same_disk_retry_loop:
  assumes "\<And>w'. same_disk w' (snd (func w'))"
  shows "same_disk w (snd (retry_loop d func is w))"
proof (induction "is" arbitrary: w)
  case Nil
  then show ?case by simp
next
  case (Cons i rest)
  obtain r w1 where step: "func w = (r, w1)" by (cases "func w")
  have w1: "same_disk w w1" using assms [of w] step by simp
  show ?case
  proof (cases r)
    case (Inl e)
    let ?w2 = "retrying i (sleep 60 (emit (Warn_sleeping sleep_time) (emit (Warn_exception d e) w1)))"
    have "same_disk w ?w2" using w1 by simp
    from same_disk_trans [OF this Cons.IH [of ?w2]] show ?thesis using step Inl by simp
  next
    case (Inr res)
    let ?w2 = "retrying i (sleep 60 (emit (Warn_sleeping sleep_time) (emit (Warn_not_ok d res) w1)))"
    have "same_disk w ?w2" using w1 by simp
    from same_disk_trans [OF this Cons.IH [of ?w2]] show ?thesis using step Inr w1 by simp
  qed
qed

lemma same_disk_efetch [simp]:
  "same_disk w (snd (efetch_accession_from_ids webenv accessions num_ids w')) = same_disk w w'"
proof -
  let ?w0 = "emit (Print ''Fetching accession using SRA IDs from NCBI...'') w'"
  let ?r = "retry_request ''efetch_from_ids'' (\<lambda>w'. requests_get (efetch_request webenv w') w') ?w0"
  have "same_disk ?w0 (snd ?r)"
    unfolding retry_request_def by (rule same_disk_retry_loop) simp
  then have r: "same_disk w (snd ?r) = same_disk w w'"
    by (simp add: same_disk_def emit_def)
  show ?thesis
    unfolding efetch_accession_from_ids_def using r
    by (simp add: Let_def split_beta split: sum.split option.split)
qed

lemma same_disk_fetch_runs [simp]:
  "same_disk w (snd (fetch_runs_from_bioproject accession w')) = same_disk w w'"
  unfolding fetch_runs_from_bioproject_def
  by (simp add: Let_def split_beta split: sum.split option.split)

lemma wget_calls_emit [simp]: "wget_calls (emit e w) = wget_calls w"
  by (simp add: emit_def)

lemma cache_file_emit [simp]: "cache_file (emit e w) = cache_file w"
  by (simp add: emit_def)

lemma wget_calls_append_cache [simp]: "wget_calls (append_cache xs w) = wget_calls w"
  by (simp add: append_cache_def)

lemma requested_append_cache [simp]: "requested (append_cache xs w) = requested w"
  by (simp add: append_cache_def)

subsection \<open>The catalog queries ENA only for runs that the cache lacks\<close>

lemma query_loop_calls:
  "\<exists>queried rest. xs = queried @ rest \<and>
     wget_calls (snd (query_loop xs s w))
       = wget_calls w @ map (\<lambda>r. query_url (base_accession r)) queried \<and>
     requested (snd (query_loop xs s w)) = requested w \<and>
     cache_file (snd (query_loop xs s w)) = cache_file w"
proof (induction xs arbitrary: s w)
  case Nil
  then show ?case by simp
next
  case (Cons fastq xs)
  obtain res_lis md5_dic where s: "s = (res_lis, md5_dic)" by (cases s)
  let ?u = "query_url (base_accession fastq)"
  let ?w1 = "w\<lparr>wget_calls := wget_calls w @ [?u]\<rparr>"
  let ?out = "wget w (length (wget_calls w)) ?u"
  have stop: "\<exists>queried rest. fastq # xs = queried @ rest \<and>
     wget_calls ?w1 = wget_calls w @ map (\<lambda>r. query_url (base_accession r)) queried \<and>
     requested ?w1 = requested w \<and> cache_file ?w1 = cache_file w"
    by (rule exI [of _ "[fastq]"]) simp
  show ?case
  proof (cases "py_index (py_split newline ?out) 1")
    case (Inl e)
    then have "query_loop (fastq # xs) s w = (Inl e, ?w1)"
      by (simp add: s run_wget_def)
    then show ?thesis using stop by simp
  next
    case line: (Inr line)
    show ?thesis
    proof (cases "py_index (py_split tab line) 1")
      case (Inl e)
      then have "query_loop (fastq # xs) s w = (Inl e, ?w1)"
        using line by (simp add: s run_wget_def)
      then show ?thesis using stop by simp
    next
      case (Inr md5s)
      let ?s' = "(res_lis @ [line], md5_dic(hd (py_split tab line) \<mapsto> py_split CHR '';'' md5s))"
      have unfold: "query_loop (fastq # xs) s w = query_loop xs ?s' ?w1"
        using line Inr by (simp add: s run_wget_def)
      from Cons.IH [of ?s' ?w1] obtain queried rest where
        q: "xs = queried @ rest"
           "wget_calls (snd (query_loop xs ?s' ?w1))
              = wget_calls ?w1 @ map (\<lambda>r. query_url (base_accession r)) queried"
           "requested (snd (query_loop xs ?s' ?w1)) = requested ?w1"
           "cache_file (snd (query_loop xs ?s' ?w1)) = cache_file ?w1"
        by blast
      show ?thesis
        unfolding unfold
      proof (intro exI conjI)
        show "fastq # xs = (fastq # queried) @ rest"
          using q(1) by simp
        show "wget_calls (snd (query_loop xs ?s' ?w1))
                = wget_calls w @ map (\<lambda>r. query_url (base_accession r)) (fastq # queried)"
          using q(2) by simp
        show "requested (snd (query_loop xs ?s' ?w1)) = requested w"
          using q(3) by simp
        show "cache_file (snd (query_loop xs ?s' ?w1)) = cache_file w"
          using q(4) by simp
      qed
    qed
  qed
qed

lemma need_query_set:
  "set (need_query fastq_lis cache_fastq_lis) = set fastq_lis - set cache_fastq_lis"
  by (auto simp: need_query_def)

lemma need_query_distinct: "distinct (need_query fastq_lis cache_fastq_lis)"
  by (simp add: need_query_def)

text \<open>
  Claim C6. Let run resolution give the run identifiers \<open>fastq_lis\<close> and let the cache file
  load, with the identifiers \<open>cache_fastq_lis\<close> in it. Building the catalog with the cache
  then runs \<^verbatim>\<open>wget\<close> once for each identifier of a list \<open>queried\<close>, on the report of its
  base accession, and for nothing else. The identifiers in \<open>queried\<close> are requested ones, each
  at most once, and none of them is in the cache: no query is made for a cached identifier.
  No HTTP request is sent after run resolution. When every requested identifier is cached,
  \<open>queried\<close> is empty, so no query is made at all, and the catalog is the loaded cache.
\<close>

theorem cached_runs_not_queried:
  assumes runs: "fst (fetch_runs_from_bioproject accession
                   (emit (Print ''Start generating md5 dictionary...'') w)) = Inr fastq_lis"
      and cfile: "cache_file w = Some content"
      and load: "cache_loop (readlines content) ([], Map.empty) = Inr (cache_fastq_lis, md5_dic)"
  shows "\<exists>queried.
           wget_calls (snd (get_md5_from_ena accession True w))
             = wget_calls w @ map (\<lambda>r. query_url (base_accession r)) queried
         \<and> requested (snd (get_md5_from_ena accession True w))
             = requested (snd (fetch_runs_from_bioproject accession
                   (emit (Print ''Start generating md5 dictionary...'') w)))
         \<and> distinct queried
         \<and> set queried \<subseteq> set fastq_lis
         \<and> set queried \<inter> set cache_fastq_lis = {}
         \<and> (set fastq_lis \<subseteq> set cache_fastq_lis \<longrightarrow>
              queried = [] \<and> fst (get_md5_from_ena accession True w) = Inr md5_dic)"
proof -
  let ?w0 = "emit (Print ''Start generating md5 dictionary...'') w"
  let ?need = "need_query fastq_lis cache_fastq_lis"
  define w1 where "w1 = snd (fetch_runs_from_bioproject accession ?w0)"
  let ?w2 = "emit (Print ''Using cache to search md5...'') w1"
  have fetch: "fetch_runs_from_bioproject accession ?w0 = (Inr fastq_lis, w1)"
    using runs by (simp add: w1_def prod_eq_iff)
  have "same_disk ?w0 (snd (fetch_runs_from_bioproject accession ?w0))"
    by simp
  then have disk: "cache_file w1 = cache_file w" "wget_calls w1 = wget_calls w"
    using fetch by (simp_all add: same_disk_def)
  have file2: "cache_file ?w2 = Some content"
    using disk cfile by simp
  show ?thesis
  proof (cases "?need = []")
    case True
    then have res: "get_md5_from_ena accession True w
        = (Inr md5_dic, emit (Print ''All runs are cached, no need to fetch md5 from ENA'') ?w2)"
      using fetch file2 load by (simp add: get_md5_from_ena_def Let_def)
    show ?thesis
      unfolding w1_def [symmetric]
      by (rule exI [of _ "[]"]) (simp add: res disk)
  next
    case False
    let ?w3 = "emit (Print ''Some runs are not cached, start fetching md5 from ENA, this may take a while...'') ?w2"
    let ?q = "query_loop ?need ([], md5_dic) ?w3"
    from query_loop_calls [of ?need "([], md5_dic)" ?w3] obtain queried rest where
      q: "?need = queried @ rest"
         "wget_calls (snd ?q) = wget_calls ?w3 @ map (\<lambda>r. query_url (base_accession r)) queried"
         "requested (snd ?q) = requested ?w3"
      by blast
    have "set ?need \<noteq> {}"
      using False by simp
    then have some: "\<not> set fastq_lis \<subseteq> set cache_fastq_lis"
      unfolding need_query_set by blast
    have sub: "set queried \<subseteq> set fastq_lis - set cache_fastq_lis"
      using q(1) need_query_set [of fastq_lis cache_fastq_lis] by auto
    have dist: "distinct queried"
      using q(1) need_query_distinct [of fastq_lis cache_fastq_lis] by auto
    have snd_eq: "wget_calls (snd (get_md5_from_ena accession True w)) = wget_calls (snd ?q)
                \<and> requested (snd (get_md5_from_ena accession True w)) = requested (snd ?q)"
      using fetch file2 load False
      by (simp add: get_md5_from_ena_def Let_def split_beta split: sum.split)
    show ?thesis
      unfolding w1_def [symmetric]
      by (rule exI [of _ queried]) (use snd_eq q sub dist some disk in auto)
  qed
qed

theorem cached_runs_not_queried_witness:
  "fst (fetch_runs_from_bioproject ''PRJ1''
          (emit (Print ''Start generating md5 dictionary...'')
             (lab [[''SRR1''], [''SRR2'']] (Some (''SRR1'' @ [tab] @ ''abc;def'' @ [newline])) [] Map.empty)))
     = Inr [''SRR1'', ''SRR2'']
   \<and> cache_loop (readlines (''SRR1'' @ [tab] @ ''abc;def'' @ [newline])) ([], Map.empty)
     = Inr ([''SRR1''], [''SRR1'' \<mapsto> [''abc'', ''def'' @ [newline]]])
   \<and> (\<exists>queried.
         wget_calls (snd (get_md5_from_ena ''PRJ1'' True
            (lab [[''SRR1''], [''SRR2'']] (Some (''SRR1'' @ [tab] @ ''abc;def'' @ [newline])) [] Map.empty)))
           = map (\<lambda>r. query_url (base_accession r)) queried
         \<and> set queried \<inter> set [''SRR1''] = {})"
proof -
  let ?c = "''SRR1'' @ [tab] @ ''abc;def'' @ [newline]"
  let ?w = "lab [[''SRR1''], [''SRR2'']] (Some ?c) [] Map.empty"
  have runs: "fst (fetch_runs_from_bioproject ''PRJ1''
          (emit (Print ''Start generating md5 dictionary...'') ?w)) = Inr [''SRR1'', ''SRR2'']"
    by code_simp
  have cfile: "cache_file ?w = Some ?c"
    by (simp add: lab_def)
  have load: "cache_loop (readlines ?c) ([], Map.empty)
     = Inr ([''SRR1''], [''SRR1'' \<mapsto> [''abc'', ''def'' @ [newline]]])"
    by (simp add: tab_def newline_def py_index_def)
  have calls: "wget_calls ?w = []"
    by (simp add: lab_def)
  from cached_runs_not_queried [OF runs cfile load] calls runs load show ?thesis
    by auto
qed

subsection \<open>A missing cache file\<close>

text \<open>
  Claim C9. When the cache file does not exist, \<^verbatim>\<open>get_md5_from_ena\<close> with the cache on never
  returns a catalog: it raises the file-not-found error of \<^verbatim>\<open>open(md5_cache_dir)\<close>, unless
  run resolution has already raised before the file is opened. \<^verbatim>\<open>validate\<close>, which always
  calls it with the cache on, fails too, whatever the directory holds.
\<close>

theorem missing_cache_file_raises:
  assumes "cache_file w = None"
  shows "(fst (get_md5_from_ena accession True w) = Inl (FileNotFoundError md5_cache_dir)
          \<or> (\<exists>e. fst (fetch_runs_from_bioproject accession
                          (emit (Print ''Start generating md5 dictionary...'') w)) = Inl e
                 \<and> fst (get_md5_from_ena accession True w) = Inl e))
       \<and> (\<exists>e. fst (validate accession dir w) = Inl e)"
proof -
  let ?w0 = "emit (Print ''Start generating md5 dictionary...'') w"
  obtain r w1 where fetch: "fetch_runs_from_bioproject accession ?w0 = (r, w1)"
    by (cases "fetch_runs_from_bioproject accession ?w0")
  have "same_disk ?w0 (snd (fetch_runs_from_bioproject accession ?w0))"
    by simp
  then have none: "cache_file w1 = None"
    using fetch assms by (simp add: same_disk_def)
  have first: "fst (get_md5_from_ena accession True w) = Inl (FileNotFoundError md5_cache_dir)
          \<or> (\<exists>e. r = Inl e \<and> fst (get_md5_from_ena accession True w) = Inl e)"
  proof (cases r)
    case (Inl e)
    then show ?thesis using fetch by (simp add: get_md5_from_ena_def)
  next
    case (Inr fastq_lis)
    then show ?thesis using fetch none by (simp add: get_md5_from_ena_def Let_def)
  qed
  then obtain e where e: "fst (get_md5_from_ena accession True w) = Inl e"
    by blast
  have "\<exists>e'. fst (validate accession dir w) = Inl e'"
  proof (cases "listdir w dir")
    case None
    then show ?thesis by (simp add: validate_def)
  next
    case (Some fastq_lis)
    then show ?thesis using e
      by (simp add: validate_def split_beta split: sum.split)
  qed
  with first fetch show ?thesis by simp
qed

theorem missing_cache_file_raises_witness:
  "cache_file (lab [[''SRR2'']] None [''SRR2_1.fastq''] shelf) = None
   \<and> fst (get_md5_from_ena ''PRJ1'' True (lab [[''SRR2'']] None [''SRR2_1.fastq''] shelf))
       = Inl (FileNotFoundError md5_cache_dir)
   \<and> (\<exists>e. fst (validate ''PRJ1'' ''data'' (lab [[''SRR2'']] None [''SRR2_1.fastq''] shelf)) = Inl e)"
proof -
  let ?w = "lab [[''SRR2'']] None [''SRR2_1.fastq''] shelf"
  have h: "cache_file ?w = None"
    by (simp add: lab_def)
  have runs: "fst (fetch_runs_from_bioproject ''PRJ1''
                (emit (Print ''Start generating md5 dictionary...'') ?w)) = Inr [''SRR2'']"
    by code_simp
  from missing_cache_file_raises [OF h, of "''PRJ1''" "''data''"] runs h show ?thesis
    by auto
qed

subsection \<open>The pairs that main validates\<close>

text \<open>
  Claim C10. With the two argument lists given, \<open>main\<close> does exactly what it does on both
  lists cut to the length of the shorter one: same result, same requests, same output. The
  surplus entries of the longer list are never validated and leave no trace, no error and
  no message.
\<close>

theorem main_drops_surplus:
  "main (Some accessions) (Some dirs) w
     = main (Some (take (min (length accessions) (length dirs)) accessions))
            (Some (take (min (length accessions) (length dirs)) dirs)) w"
proof -
  have "zip (take (min (length accessions) (length dirs)) accessions)
            (take (min (length accessions) (length dirs)) dirs)
          = take (length (zip accessions dirs)) (zip accessions dirs)"
    by (simp add: take_zip)
  then show ?thesis
    by (simp add: main_def)
qed

theorem main_drops_surplus_witness:
  "fst (main (Some [''PRJ1'', ''PRJ2'', ''PRJ3'']) (Some [''data''])
          (lab [[''SRR2'']] (Some []) [''SRR2_1.fastq''] shelf)) = Inr ()
   \<and> length (requested (snd (main (Some [''PRJ1'', ''PRJ2'', ''PRJ3'']) (Some [''data''])
          (lab [[''SRR2'']] (Some []) [''SRR2_1.fastq''] shelf)))) = 2"
proof -
  let ?w = "lab [[''SRR2'']] (Some []) [''SRR2_1.fastq''] shelf"
  have cut: "main (Some [''PRJ1'', ''PRJ2'', ''PRJ3'']) (Some [''data'']) ?w
               = main (Some [''PRJ1'']) (Some [''data'']) ?w"
    using main_drops_surplus [of "[''PRJ1'', ''PRJ2'', ''PRJ3'']" "[''data'']" ?w] by simp
  have "fst (main (Some [''PRJ1'']) (Some [''data'']) ?w) = Inr ()
      \<and> length (requested (snd (main (Some [''PRJ1'']) (Some [''data'']) ?w))) = 2"
    by code_simp
  then show ?thesis
    unfolding cut .
qed

lemma main_loop_append:
  "main_loop (xs @ ys) w =
     (case main_loop xs w of (Inl e, w1) \<Rightarrow> (Inl e, w1) | (Inr u, w1) \<Rightarrow> main_loop ys w1)"
  by (induction xs arbitrary: w) (simp_all split: prod.split sum.split)

text \<open>
  Claim C5 as stated fails. The search for the first project raises; the second pair, which
  validates when it is run by itself, is never started: the only request sent is the
  search of the first pair.
\<close>

theorem sibling_pair_not_processed:
  "fst (main (Some [''PRJ0'', ''PRJ1'']) (Some [''data'', ''data''])
          ((lab [] (Some []) [''SRR2_1.fastq''] shelf)\<lparr>http := outage ''PRJ0''\<rparr>))
     = Inl ConnectionError
   \<and> requested (snd (main (Some [''PRJ0'', ''PRJ1'']) (Some [''data'', ''data''])
          ((lab [] (Some []) [''SRR2_1.fastq''] shelf)\<lparr>http := outage ''PRJ0''\<rparr>)))
     = [esearch_request ''PRJ0'']
   \<and> fst (validate ''PRJ1'' ''data''
          ((lab [] (Some []) [''SRR2_1.fastq''] shelf)\<lparr>http := outage ''PRJ0''\<rparr>))
     = Inr ()"
  by code_simp

text \<open>
  Claim C5, as the code has it. When the pairs before \<open>study\<close> validate and \<open>study\<close>
  raises, \<open>main\<close> ends with that exception in the world that the failing \<^verbatim>\<open>validate\<close> left:
  nothing is done for the pairs after it.
\<close>

theorem main_stops_at_first_failure:
  assumes "zip accessions dirs = before @ study # after"
      and "fst (main_loop before w) = Inr ()"
      and "fst (validate (fst study) (snd study) (snd (main_loop before w))) = Inl e"
  shows "main (Some accessions) (Some dirs) w
           = (Inl e, snd (validate (fst study) (snd study) (snd (main_loop before w))))"
proof -
  obtain w1 where before: "main_loop before w = (Inr (), w1)"
    using assms(2) by (cases "main_loop before w") simp
  obtain w2 where study: "validate (fst study) (snd study) w1 = (Inl e, w2)"
    using assms(3) before by (cases "validate (fst study) (snd study) w1") simp
  show ?thesis
    using assms(1) before study by (simp add: main_def main_loop_append)
qed

theorem main_stops_at_first_failure_witness:
  "zip [''PRJ1'', ''PRJ0'', ''PRJ1''] [''data'', ''data'', ''data'']
     = [(''PRJ1'', ''data'')] @ (''PRJ0'', ''data'') # [(''PRJ1'', ''data'')]
   \<and> fst (main (Some [''PRJ1'', ''PRJ0'', ''PRJ1'']) (Some [''data'', ''data'', ''data''])
          ((lab [] (Some []) [''SRR2_1.fastq''] shelf)\<lparr>http := outage ''PRJ0''\<rparr>))
     = Inl ConnectionError"
proof -
  let ?w = "(lab [] (Some []) [''SRR2_1.fastq''] shelf)\<lparr>http := outage ''PRJ0''\<rparr>"
  have z: "zip [''PRJ1'', ''PRJ0'', ''PRJ1''] [''data'', ''data'', ''data'']
             = [(''PRJ1'', ''data'')] @ (''PRJ0'', ''data'') # [(''PRJ1'', ''data'')]"
    by simp
  have b: "fst (main_loop [(''PRJ1'', ''data'')] ?w) = Inr ()"
    by code_simp
  have s: "fst (validate (fst (''PRJ0'', ''data'')) (snd (''PRJ0'', ''data''))
                  (snd (main_loop [(''PRJ1'', ''data'')] ?w))) = Inl ConnectionError"
    by code_simp
  from main_stops_at_first_failure [OF z b s] z show ?thesis
    by simp
qed

subsection \<open>The validation loop stops at the first exception\<close>

lemma check_md5sum_emit [simp]: "check_md5sum p (emit e w) = check_md5sum p w"
  by (simp add: check_md5sum_def emit_def)

lemma validate_file_emit [simp]:
  "validate_file d m f (emit e w) = validate_file d m f w"
  by (simp add: validate_file_def Let_def cong: sum.case_cong)

lemma validate_loop_stops:
  "\<forall>f \<in> set before. \<exists>r. validate_file d m f w = Inr r \<Longrightarrow>
   validate_file d m fastq w = Inl e \<Longrightarrow>
   validate_loop d m (before @ fastq # after) n w = (Inl e, snd (validate_loop d m before n w))"
proof (induction before arbitrary: n w)
  case Nil
  then show ?case by simp
next
  case (Cons f before)
  from Cons.prems(1) obtain ass dig same where f: "validate_file d m f w = Inr (ass, dig, same)"
    by (metis list.set_intros(1) prod_cases3)
  have rest: "\<forall>g \<in> set before. \<exists>r. validate_file d m g w = Inr r"
    using Cons.prems(1) by simp
  show ?case
  proof (cases same)
    case True
    then show ?thesis using f Cons.IH [OF rest Cons.prems(2)] by simp
  next
    case False
    let ?w' = "emit (Print_failed ass dig) w"
    have "\<forall>g \<in> set before. \<exists>r. validate_file d m g ?w' = Inr r"
         "validate_file d m fastq ?w' = Inl e"
      using rest Cons.prems(2) by simp_all
    from Cons.IH [OF this] show ?thesis using f False by simp
  qed
qed

lemma validate_loop_raises:
  "fastq \<in> set xs \<Longrightarrow> validate_file d m fastq w = Inl e \<Longrightarrow>
   \<exists>e'. fst (validate_loop d m xs n w) = Inl e'"
proof (induction xs arbitrary: n w)
  case Nil
  then show ?case by simp
next
  case (Cons f xs)
  show ?case
  proof (cases "validate_file d m f w")
    case (Inl e0)
    then show ?thesis by simp
  next
    case (Inr r)
    obtain ass dig same where r: "r = (ass, dig, same)" by (cases r)
    have "f \<noteq> fastq" using Inr Cons.prems(2) by auto
    then have mem: "fastq \<in> set xs" using Cons.prems(1) by simp
    have e': "validate_file d m fastq (emit (Print_failed ass dig) w) = Inl e"
      using Cons.prems(2) by simp
    show ?thesis
      using Inr r Cons.IH [OF mem Cons.prems(2)] Cons.IH [OF mem e'] by simp
  qed
qed

lemma validate_file_bad_name: "file_index fastq = Inl e \<Longrightarrow> validate_file d m fastq w = Inl e"
  by (simp add: validate_file_def)

lemma validate_file_missing:
  assumes "file_index fastq = Inr dig"
      and "check_md5sum (path_join d fastq) w = Inr actual_md5"
      and "m (base_accession fastq) = None
           \<or> (\<exists>entry. m (base_accession fastq) = Some entry \<and> int (length entry) < dig)"
  shows "validate_file d m fastq w
           = Inl (if m (base_accession fastq) = None then KeyError (base_accession fastq)
                  else IndexError)"
  using assms by (auto simp: validate_file_def py_index_def Let_def)

lemma validate_fst:
  assumes "listdir w dir = Some fastq_lis"
      and "fst (get_md5_from_ena accession True w) = Inr md5_dic"
  shows "fst (validate accession dir w)
           = (case fst (validate_loop dir md5_dic fastq_lis 0
                          (emit (Print ''Start calculating md5'')
                             (snd (get_md5_from_ena accession True w)))) of
                Inl e \<Rightarrow> Inl e | Inr n \<Rightarrow> Inr ())"
  using assms
  by (simp add: validate_def split_beta Let_def split: sum.split)

lemma validate_stops:
  assumes "listdir w dir = Some (before @ fastq # after)"
      and "fst (get_md5_from_ena accession True w) = Inr md5_dic"
      and "\<forall>f \<in> set before.
             \<exists>r. validate_file dir md5_dic f (snd (get_md5_from_ena accession True w)) = Inr r"
      and "validate_file dir md5_dic fastq (snd (get_md5_from_ena accession True w)) = Inl e"
  shows "validate accession dir w
           = (Inl e, snd (validate_loop dir md5_dic before 0
                            (emit (Print ''Start calculating md5'')
                               (snd (get_md5_from_ena accession True w)))))"
proof -
  define w1 where "w1 = snd (get_md5_from_ena accession True w)"
  let ?w2 = "emit (Print ''Start calculating md5'') w1"
  have G: "get_md5_from_ena accession True w = (Inr md5_dic, w1)"
    using assms(2) by (simp add: w1_def prod_eq_iff)
  have good: "\<forall>f \<in> set before. \<exists>r. validate_file dir md5_dic f ?w2 = Inr r"
    using assms(3) by (simp add: w1_def)
  have bad: "validate_file dir md5_dic fastq ?w2 = Inl e"
    using assms(4) by (simp add: w1_def)
  have loop: "validate_loop dir md5_dic (before @ fastq # after) 0 ?w2
                = (Inl e, snd (validate_loop dir md5_dic before 0 ?w2))"
    by (rule validate_loop_stops [OF good bad])
  have "validate accession dir w = (Inl e, snd (validate_loop dir md5_dic before 0 ?w2))"
    by (simp add: validate_def assms(1) G loop)
  then show ?thesis
    by (simp add: w1_def)
qed

text \<open>
  Claim C2, as the code has it. Let the catalog be built, let the files listed before
  \<open>fastq\<close> be checked without an exception, and let \<open>fastq\<close> have a file index and a
  readable content. When the catalog has no entry for its base accession, \<^verbatim>\<open>validate\<close>
  raises \<^verbatim>\<open>KeyError\<close>; when the entry is shorter than the file index, it raises
  \<^verbatim>\<open>IndexError\<close>. The world it leaves is the one that checking the files before \<open>fastq\<close>
  left: nothing is printed for \<open>fastq\<close>, no mismatch is counted for it, the files after it
  are not checked and no summary is printed.
\<close>

theorem validate_raises_on_missing_checksum:
  assumes "listdir w dir = Some (before @ fastq # after)"
      and "fst (get_md5_from_ena accession True w) = Inr md5_dic"
      and "\<forall>f \<in> set before.
             \<exists>r. validate_file dir md5_dic f (snd (get_md5_from_ena accession True w)) = Inr r"
      and "file_index fastq = Inr dig"
      and "check_md5sum (path_join dir fastq) (snd (get_md5_from_ena accession True w))
             = Inr actual_md5"
      and "md5_dic (base_accession fastq) = None
           \<or> (\<exists>entry. md5_dic (base_accession fastq) = Some entry \<and> int (length entry) < dig)"
  shows "validate accession dir w
           = (Inl (if md5_dic (base_accession fastq) = None then KeyError (base_accession fastq)
                   else IndexError),
              snd (validate_loop dir md5_dic before 0
                     (emit (Print ''Start calculating md5'')
                        (snd (get_md5_from_ena accession True w)))))"
proof -
  let ?w1 = "snd (get_md5_from_ena accession True w)"
  let ?e = "if md5_dic (base_accession fastq) = None then KeyError (base_accession fastq)
            else IndexError"
  have bad: "validate_file dir md5_dic fastq ?w1 = Inl ?e"
    using validate_file_missing [where m = md5_dic and d = dir and w = ?w1, OF assms(4)]
      assms(5) assms(6)
    by simp
  show ?thesis
    by (rule validate_stops [OF assms(1) assms(2) assms(3) bad])
qed

text \<open>
  Claim C8, as the code has it. A directory entry from whose name the code reads no file
  index (\<open>file_index\<close> raises: the part before the first period has no underscore, as in
  \<^verbatim>\<open>notes.txt\<close>, or its second piece is no integer) makes \<^verbatim>\<open>validate\<close> raise: the run never
  completes with that file skipped. When the catalog is built and the files listed before
  it are checked without an exception, the exception is the one that reading the index of
  this name raises, and the world is the one that checking the files before it left: the
  files after it are not checked and no summary is printed.
\<close>

theorem validate_raises_on_bad_name:
  assumes "listdir w dir = Some fastq_lis"
      and "fastq \<in> set fastq_lis"
      and "file_index fastq = Inl e"
  shows "(\<exists>e'. fst (validate accession dir w) = Inl e')
       \<and> (\<forall>md5_dic before after.
             fst (get_md5_from_ena accession True w) = Inr md5_dic
             \<and> fastq_lis = before @ fastq # after
             \<and> (\<forall>f \<in> set before.
                   \<exists>r. validate_file dir md5_dic f (snd (get_md5_from_ena accession True w)) = Inr r)
             \<longrightarrow> validate accession dir w
                   = (Inl e, snd (validate_loop dir md5_dic before 0
                                    (emit (Print ''Start calculating md5'')
                                       (snd (get_md5_from_ena accession True w))))))"
proof (intro conjI allI impI)
  show "\<exists>e'. fst (validate accession dir w) = Inl e'"
  proof (cases "fst (get_md5_from_ena accession True w)")
    case (Inl e0)
    then show ?thesis using assms(1)
      by (simp add: validate_def split_beta split: sum.split)
  next
    case (Inr md5_dic)
    let ?w2 = "emit (Print ''Start calculating md5'') (snd (get_md5_from_ena accession True w))"
    have "validate_file dir md5_dic fastq ?w2 = Inl e"
      by (rule validate_file_bad_name [OF assms(3)])
    from validate_loop_raises [OF assms(2) this, of 0] obtain e' where
      "fst (validate_loop dir md5_dic fastq_lis 0 ?w2) = Inl e'" by blast
    then show ?thesis
      using validate_fst [OF assms(1) Inr] by simp
  qed
next
  fix md5_dic before after
  assume h: "fst (get_md5_from_ena accession True w) = Inr md5_dic
             \<and> fastq_lis = before @ fastq # after
             \<and> (\<forall>f \<in> set before.
                   \<exists>r. validate_file dir md5_dic f (snd (get_md5_from_ena accession True w)) = Inr r)"
  let ?w1 = "snd (get_md5_from_ena accession True w)"
  have bad: "validate_file dir md5_dic fastq ?w1 = Inl e"
    by (rule validate_file_bad_name [OF assms(3)])
  have l: "listdir w dir = Some (before @ fastq # after)"
    using assms(1) h by simp
  show "validate accession dir w
          = (Inl e, snd (validate_loop dir md5_dic before 0
                           (emit (Print ''Start calculating md5'') ?w1)))"
    using validate_stops [OF l _ _ bad] h by blast
qed


text \<open>
  Claim C2 as stated fails. The directory holds a file of run SRR9, which the project does
  not have, and then a file with index 2 of run SRR2, which has one checksum:
  \<^verbatim>\<open>validate\<close> raises \<^verbatim>\<open>KeyError\<close> at the first file, and the last thing it has printed is
  the line before the loop, so no mismatch is reported and the second file is not looked at.
\<close>

theorem missing_checksum_crashes:
  "fst (validate ''PRJ1'' ''data''
          (lab [[''SRR2'']] (Some []) [''SRR9_1.fastq'', ''SRR2_2.fastq''] shelf))
     = Inl (KeyError ''SRR9'')
   \<and> last (printed (snd (validate ''PRJ1'' ''data''
          (lab [[''SRR2'']] (Some []) [''SRR9_1.fastq'', ''SRR2_2.fastq''] shelf))))
     = Print ''Start calculating md5''"
  by code_simp

theorem validate_raises_on_missing_checksum_witness:
  "listdir (lab [[''SRR2'']] (Some []) [''SRR2_1.fastq'', ''SRR2_2.fastq'', ''SRR2_1.fastq''] shelf) ''data''
     = Some ([''SRR2_1.fastq''] @ ''SRR2_2.fastq'' # [''SRR2_1.fastq''])
   \<and> file_index ''SRR2_2.fastq'' = Inr 2
   \<and> fst (validate ''PRJ1'' ''data''
          (lab [[''SRR2'']] (Some []) [''SRR2_1.fastq'', ''SRR2_2.fastq'', ''SRR2_1.fastq''] shelf))
     = Inl IndexError"
proof -
  let ?w = "lab [[''SRR2'']] (Some []) [''SRR2_1.fastq'', ''SRR2_2.fastq'', ''SRR2_1.fastq''] shelf"
  let ?G = "get_md5_from_ena ''PRJ1'' True ?w"
  have ev: "(case fst ?G of Inl e \<Rightarrow> False
             | Inr m \<Rightarrow> m ''SRR2'' = Some [''123'']
                 \<and> \<not> isl (validate_file ''data'' m ''SRR2_1.fastq'' (snd ?G)))"
    by code_simp
  then obtain m where m: "fst ?G = Inr m" "m ''SRR2'' = Some [''123'']"
      "\<not> isl (validate_file ''data'' m ''SRR2_1.fastq'' (snd ?G))"
    by (cases "fst ?G") auto
  have h1: "listdir ?w ''data'' = Some ([''SRR2_1.fastq''] @ ''SRR2_2.fastq'' # [''SRR2_1.fastq''])"
    by (simp add: lab_def)
  have h3: "\<forall>f \<in> set [''SRR2_1.fastq'']. \<exists>r. validate_file ''data'' m f (snd ?G) = Inr r"
  proof (cases "validate_file ''data'' m ''SRR2_1.fastq'' (snd ?G)")
    case (Inl e)
    then show ?thesis using m(3) by simp
  next
    case (Inr r)
    obtain a b c where "r = (a, b, c)" by (cases r)
    with Inr show ?thesis by simp
  qed
  have h4: "file_index ''SRR2_2.fastq'' = Inr 2"
    by code_simp
  have h5: "check_md5sum (path_join ''data'' ''SRR2_2.fastq'') (snd ?G) = Inr ''456''"
    by code_simp
  have b: "base_accession ''SRR2_2.fastq'' = ''SRR2''"
    by simp
  have h6: "m (base_accession ''SRR2_2.fastq'') = None
           \<or> (\<exists>entry. m (base_accession ''SRR2_2.fastq'') = Some entry \<and> int (length entry) < 2)"
    unfolding b using m(2) by simp
  have "fst (validate ''PRJ1'' ''data'' ?w) = Inl IndexError"
    using validate_raises_on_missing_checksum [OF h1 m(1) h3 h4 h5 h6] m(2)
    unfolding b by simp
  with h1 h4 show ?thesis
    by simp
qed

text \<open>
  Claim C8 as stated fails. Neither \<^verbatim>\<open>SRR2_1_notes.fastq\<close> (no integer between the first
  underscore and the period) nor \<^verbatim>\<open>SRR2_1\<close> (no extension) fits the naming convention, yet
  \<^verbatim>\<open>validate\<close> reads both as file 1 of run SRR2, raises nothing and reports success.
\<close>

theorem bad_name_accepted:
  "\<not> spec_naming_convention ''SRR2_1_notes.fastq''
   \<and> \<not> spec_naming_convention ''SRR2_1''
   \<and> fst (validate ''PRJ1'' ''data''
          (lab [[''SRR2'']] (Some []) [''SRR2_1_notes.fastq'', ''SRR2_1''] shelf)) = Inr ()
   \<and> last (printed (snd (validate ''PRJ1'' ''data''
          (lab [[''SRR2'']] (Some []) [''SRR2_1_notes.fastq'', ''SRR2_1''] shelf))))
     = Print ''project download success!''"
  by code_simp

theorem validate_raises_on_bad_name_witness:
  "listdir (lab [[''SRR2'']] (Some []) [''SRR2_1.fastq'', ''notes.txt''] shelf) ''data''
     = Some [''SRR2_1.fastq'', ''notes.txt'']
   \<and> file_index ''notes.txt'' = Inl IndexError
   \<and> (\<exists>e. fst (validate ''PRJ1'' ''data''
                 (lab [[''SRR2'']] (Some []) [''SRR2_1.fastq'', ''notes.txt''] shelf)) = Inl e)"
proof -
  let ?w = "lab [[''SRR2'']] (Some []) [''SRR2_1.fastq'', ''notes.txt''] shelf"
  have h1: "listdir ?w ''data'' = Some [''SRR2_1.fastq'', ''notes.txt'']"
    by (simp add: lab_def)
  have h2: "''notes.txt'' \<in> set [''SRR2_1.fastq'', ''notes.txt'']"
    by simp
  have h3: "file_index ''notes.txt'' = Inl IndexError"
    by code_simp
  from validate_raises_on_bad_name [OF h1 h2 h3, of "''PRJ1''"] h1 h3 show ?thesis
    by blast
qed

lemma py_split_no_sep: "sep \<notin> set s \<Longrightarrow> py_split sep s = [s]"
  by (induction s) auto

lemma file_index_no_underscore:
  "CHR ''_'' \<notin> set (hd (py_split CHR ''.'' fastq)) \<Longrightarrow> file_index fastq = Inl IndexError"
  by (simp add: file_index_def py_split_no_sep py_index_def)

text \<open>The convention and \<^verbatim>\<open>int\<close> on a few inputs.\<close>

lemma spec_naming_convention_examples: "spec_naming_convention ''SRR2_1.fastq'' \<and> \<not> spec_naming_convention ''notes.txt'' \<and> spec_naming_convention ''SRR000001_2.fastq.gz'' \<and> \<not> spec_naming_convention ''SRR1_0.fastq''"
  by code_simp

lemma py_int_examples: "py_int [CHR 0x1F, CHR ''1''] = Inl (ValueError [CHR 0x1F, CHR ''1'']) \<and> py_int [CHR 0xA0, CHR ''1'', CHR 0x85] = Inr 1"
  by code_simp

subsection \<open>Run resolution on concrete answers\<close>

text \<open>
  Claim C1 on a record with two runs, SRR1 and SRR2, and no accession filter. The loop
  appends the one dictionary of the record once per run and overwrites its \<^verbatim>\<open>'run'\<close> entry
  each time, so both rows of the frame read SRR2: SRR1 is lost and SRR2 stands in its place.
\<close>

theorem efetch_keeps_last_run_only:
  "fst (efetch_accession_from_ids (PyStr ''MCID_1'') None 1
          (lab [[''SRR1'', ''SRR2'']] (Some []) [] Map.empty))
     = Inr [[(''run'', ''SRR2'')], [(''run'', ''SRR2'')]]
   \<and> fst (fetch_runs_from_bioproject ''PRJ1'' (lab [[''SRR1'', ''SRR2'']] (Some []) [] Map.empty))
     = Inr [''SRR2'', ''SRR2'']"
  by code_simp

text \<open>
  Claim C4 on a search that answers "not OK" once and would answer from then on.
  \<^verbatim>\<open>fetch_runs_from_bioproject\<close> sends the search once, without the retry executor, and raises
  the HTTP failure: one request, no sleep. The fetch, which does go through the retry
  executor, gets past the same failed first attempt.
\<close>

theorem search_not_retried:
  "fst (fetch_runs_from_bioproject ''PRJ1''
          ((lab [[''SRR1'']] (Some []) [] Map.empty)
             \<lparr>http := (\<lambda>n req. if n = 0 then Inr unavailable else ncbi [[''SRR1'']] n req)\<rparr>))
     = Inl (HTTP_Failure ''search from bioproject'' unavailable)
   \<and> requested (snd (fetch_runs_from_bioproject ''PRJ1''
          ((lab [[''SRR1'']] (Some []) [] Map.empty)
             \<lparr>http := (\<lambda>n req. if n = 0 then Inr unavailable else ncbi [[''SRR1'']] n req)\<rparr>)))
     = [esearch_request ''PRJ1'']
   \<and> slept (snd (fetch_runs_from_bioproject ''PRJ1''
          ((lab [[''SRR1'']] (Some []) [] Map.empty)
             \<lparr>http := (\<lambda>n req. if n = 0 then Inr unavailable else ncbi [[''SRR1'']] n req)\<rparr>)))
     = []
   \<and> fst (efetch_accession_from_ids (PyStr ''MCID_1'') None 1
          ((lab [[''SRR1'']] (Some []) [] Map.empty)
             \<lparr>http := (\<lambda>n req. if n = 0 then Inr unavailable else ncbi [[''SRR1'']] n req)\<rparr>))
     = Inr [[(''run'', ''SRR1'')]]"
  by code_simp

subsection \<open>Writing a checksum entry to the cache and loading it again\<close>

lemma py_split_not_Nil [simp]: "py_split sep s \<noteq> []"
  by (induction s) (auto split: list.splits)

lemma py_split_snoc:
  "c \<noteq> sep \<Longrightarrow>
   py_split sep (s @ [c]) = butlast (py_split sep s) @ [last (py_split sep s) @ [c]]"
proof (induction s)
  case Nil
  then show ?case by simp
next
  case (Cons a s)
  obtain x xs where P: "py_split sep s = x # xs"
    by (cases "py_split sep s") simp_all
  show ?case
    using Cons P by (cases xs) auto
qed

lemma py_split_pieces: "p \<in> set (py_split sep s) \<Longrightarrow> set p \<subseteq> set s"
proof (induction s arbitrary: p)
  case Nil
  then show ?case by simp
next
  case (Cons a s)
  obtain y ys where P: "py_split sep s = y # ys"
    by (cases "py_split sep s") simp_all
  have y: "set y \<subseteq> set s"
    using Cons.IH [of y] P by simp
  have ys: "\<forall>q \<in> set ys. set q \<subseteq> set s"
    using Cons.IH P by simp
  show ?case
  proof (cases "a = sep")
    case True
    then have "p = [] \<or> p = y \<or> p \<in> set ys"
      using Cons.prems P by auto
    then show ?thesis using y ys by auto
  next
    case False
    then have "p = a # y \<or> p \<in> set ys"
      using Cons.prems P by auto
    then show ?thesis using y ys by auto
  qed
qed

lemma length_py_split_snoc:
  "c \<noteq> sep \<Longrightarrow> length (py_split sep (s @ [c])) = length (py_split sep s)"
  by (simp add: py_split_snoc)

lemma readlines_Nil_iff [simp]: "readlines s = [] \<longleftrightarrow> s = []"
  by (cases s) (auto split: list.splits)

lemma readlines_line: "newline \<notin> set l \<Longrightarrow> readlines (l @ [newline]) = [l @ [newline]]"
  by (induction l) auto

lemma readlines_after_newline:
  "readlines (xs @ newline # ys) = readlines (xs @ [newline]) @ readlines ys"
proof (induction xs)
  case Nil
  then show ?case by simp
next
  case (Cons a xs)
  obtain l ls where R: "readlines (xs @ [newline]) = l # ls"
    by (cases "readlines (xs @ [newline])") simp_all
  show ?case
    using Cons R by simp
qed

lemma readlines_append_line:
  assumes "old = [] \<or> last old = newline" and "newline \<notin> set l"
  shows "readlines (old @ l @ [newline]) = readlines old @ [l @ [newline]]"
proof (cases "old = []")
  case True
  then show ?thesis using assms(2) by (simp add: readlines_line)
next
  case False
  then have old: "old = butlast old @ [newline]"
    using assms(1) by (metis append_butlast_last_id)
  have "readlines (butlast old @ newline # (l @ [newline]))
          = readlines (butlast old @ [newline]) @ readlines (l @ [newline])"
    by (rule readlines_after_newline)
  then have "readlines ((butlast old @ [newline]) @ l @ [newline])
          = readlines (butlast old @ [newline]) @ [l @ [newline]]"
    using assms(2) by (simp add: readlines_line)
  then show ?thesis using old by simp
qed

lemma cache_loop_append:
  "cache_loop (xs @ ys) s = (case cache_loop xs s of Inl e \<Rightarrow> Inl e | Inr s' \<Rightarrow> cache_loop ys s')"
proof (induction xs arbitrary: s)
  case Nil
  then show ?case by simp
next
  case (Cons line xs)
  obtain ks dic where s: "s = (ks, dic)" by (cases s)
  show ?case
    using Cons by (simp add: s split: sum.split)
qed

lemma replace_newline_id: "newline \<notin> set x \<Longrightarrow> replace_newline x = x"
  by (auto simp: replace_newline_def filter_id_conv)

lemma replace_newline_snoc: "newline \<notin> set x \<Longrightarrow> replace_newline (x @ [newline]) = x"
  by (auto simp: replace_newline_def filter_id_conv)

lemma pieces_strip_newline:
  assumes "newline \<notin> set f" and "sep \<noteq> newline"
  shows "map replace_newline (py_split sep (f @ [newline])) = py_split sep f"
proof -
  let ?Q = "py_split sep f"
  have clean: "\<And>x. x \<in> set ?Q \<Longrightarrow> newline \<notin> set x"
    using py_split_pieces assms(1) by blast
  have Q: "?Q = butlast ?Q @ [last ?Q]"
    by simp
  have "last ?Q \<in> set ?Q" by simp
  then have l: "replace_newline (last ?Q @ [newline]) = last ?Q"
    using clean by (simp add: replace_newline_snoc)
  have "\<And>x. x \<in> set (butlast ?Q) \<Longrightarrow> newline \<notin> set x"
    using clean by (meson in_set_butlastD)
  then have b: "map replace_newline (butlast ?Q) = butlast ?Q"
    by (simp add: replace_newline_id map_idI)
  have "py_split sep (f @ [newline]) = butlast ?Q @ [last ?Q @ [newline]]"
    using assms(2) by (simp add: py_split_snoc)
  then have "map replace_newline (py_split sep (f @ [newline])) = butlast ?Q @ [last ?Q]"
    using l b by simp
  then show ?thesis by simp
qed

lemma pieces_clean:
  assumes "newline \<notin> set f"
  shows "map replace_newline (py_split sep f) = py_split sep f"
proof -
  have "\<And>x. x \<in> set (py_split sep f) \<Longrightarrow> newline \<notin> set x"
    using py_split_pieces assms by blast
  then show ?thesis
    by (simp add: replace_newline_id map_idI)
qed


lemma reload_line:
  assumes nl: "newline \<notin> set line"
      and idx: "py_index (py_split tab line) 1 = Inr md5s"
  shows "\<exists>v. cache_loop [line @ [newline]] (ks, dic)
               = Inr (ks @ [hd (py_split tab line)], dic(hd (py_split tab line) \<mapsto> v))
             \<and> map replace_newline v = py_split CHR '';'' md5s"
proof -
  let ?P = "py_split tab line"
  let ?P' = "py_split tab (line @ [newline])"
  have tn: "newline \<noteq> tab"
    by (simp add: newline_def tab_def)
  have sn: "CHR '';'' \<noteq> newline"
    by (simp add: newline_def)
  have P': "?P' = butlast ?P @ [last ?P @ [newline]]"
    using tn by (simp add: py_split_snoc)
  from idx have len: "2 \<le> length ?P" and md5s: "md5s = ?P ! 1"
    by (auto simp: py_index_def Let_def split: if_splits)
  from len obtain x y zs where Pxy: "?P = x # y # zs"
    by (auto simp: numeral_2_eq_2 Suc_le_length_iff)
  have hd: "hd ?P' = hd ?P"
    unfolding P' Pxy by simp
  have "md5s \<in> set ?P"
    using len md5s by simp
  then have clean: "newline \<notin> set md5s"
    using py_split_pieces nl by blast
  have len': "length ?P' = length ?P"
    using tn by (simp add: length_py_split_snoc)
  then have idx': "py_index ?P' 1 = Inr (?P' ! 1)"
    using len by (simp add: py_index_def Let_def)
  have step: "cache_loop [line @ [newline]] (ks, dic)
               = Inr (ks @ [hd ?P], dic(hd ?P \<mapsto> py_split CHR '';'' (?P' ! 1)))"
    using idx' hd by simp
  have "map replace_newline (py_split CHR '';'' (?P' ! 1)) = py_split CHR '';'' md5s"
  proof (cases "length ?P = 2")
    case True
    then have "last ?P = md5s"
      using md5s by (simp add: last_conv_nth)
    moreover have "?P' ! 1 = last ?P @ [newline]"
      unfolding P' using True by (simp add: nth_append)
    ultimately show ?thesis
      using pieces_strip_newline [OF clean sn] by simp
  next
    case False
    then have "1 < length (butlast ?P)"
      using len by simp
    then have "?P' ! 1 = md5s"
      unfolding P' md5s by (simp add: nth_append nth_butlast)
    then show ?thesis
      using pieces_clean [OF clean] by simp
  qed
  with step show ?thesis by blast
qed

text \<open>
  Claim C3, as the code has it. Let \<open>line\<close> be a data line of an ENA report (it holds
  no newline, being a piece of a text split at the newlines) with a checksum field
  \<open>md5s\<close>; the entry put in the catalog when it is fetched is
  \<open>hd (py_split tab line) \<mapsto> py_split CHR '';'' md5s\<close>. Appending the line to a cache
  file that loads and ends its last line, and loading the file again, gives an entry
  for the same run identifier whose checksums, once newlines are removed from each as
  \<^verbatim>\<open>validate\<close> removes them, are the same sequence. (They are not the same before that:
  \<^verbatim>\<open>readlines\<close> keeps the line terminator, which ends up in the last checksum.)
\<close>

theorem cache_round_trip_up_to_newline:
  assumes "newline \<notin> set line"
      and "py_index (py_split tab line) 1 = Inr md5s"
      and "cache_file w = Some old"
      and "old = [] \<or> last old = newline"
      and "cache_loop (readlines old) ([], Map.empty) = Inr (cache_fastq_lis, md5_dic)"
  shows "\<exists>content v.
           cache_file (append_cache [line] w) = Some content
         \<and> cache_loop (readlines content) ([], Map.empty)
             = Inr (cache_fastq_lis @ [hd (py_split tab line)],
                    md5_dic(hd (py_split tab line) \<mapsto> v))
         \<and> map replace_newline v = py_split CHR '';'' md5s"
proof -
  have content: "cache_file (append_cache [line] w) = Some (old @ line @ [newline])"
    using assms(3) by (simp add: append_cache_def)
  have lines: "readlines (old @ line @ [newline]) = readlines old @ [line @ [newline]]"
    by (rule readlines_append_line [OF assms(4) assms(1)])
  from reload_line [OF assms(1) assms(2), of cache_fastq_lis md5_dic] obtain v where
    v: "cache_loop [line @ [newline]] (cache_fastq_lis, md5_dic)
          = Inr (cache_fastq_lis @ [hd (py_split tab line)], md5_dic(hd (py_split tab line) \<mapsto> v))"
       "map replace_newline v = py_split CHR '';'' md5s"
    by blast
  have "cache_loop (readlines (old @ line @ [newline])) ([], Map.empty)
          = Inr (cache_fastq_lis @ [hd (py_split tab line)], md5_dic(hd (py_split tab line) \<mapsto> v))"
    unfolding lines cache_loop_append using assms(5) v(1) by simp
  with content v(2) show ?thesis by blast
qed


theorem cache_round_trip_up_to_newline_witness:
  "newline \<notin> set (''SRR1'' @ [tab] @ ''abc;def'')
   \<and> py_index (py_split tab (''SRR1'' @ [tab] @ ''abc;def'')) 1 = Inr ''abc;def''
   \<and> (\<exists>content v.
         cache_file (append_cache [''SRR1'' @ [tab] @ ''abc;def''] (lab [] (Some []) [] Map.empty))
           = Some content
       \<and> cache_loop (readlines content) ([], Map.empty) = Inr ([''SRR1''], [''SRR1'' \<mapsto> v])
       \<and> map replace_newline v = [''abc'', ''def''])"
proof -
  let ?line = "''SRR1'' @ [tab] @ ''abc;def''"
  let ?w = "lab [] (Some []) [] Map.empty"
  have h1: "newline \<notin> set ?line"
    by (simp add: newline_def tab_def)
  have h2: "py_index (py_split tab ?line) 1 = Inr ''abc;def''"
    by (simp add: tab_def py_index_def)
  have h3: "cache_file ?w = Some []"
    by (simp add: lab_def)
  have h4: "([]::string) = [] \<or> last [] = newline"
    by simp
  have h5: "cache_loop (readlines []) ([], Map.empty) = Inr ([], Map.empty)"
    by simp
  have k: "hd (py_split tab ?line) = ''SRR1''"
    by (simp add: tab_def)
  have p: "py_split CHR '';'' ''abc;def'' = [''abc'', ''def'']"
    by simp
  from cache_round_trip_up_to_newline [OF h1 h2 h3 h4 h5] h1 h2 show ?thesis
    unfolding k p by simp
qed

text \<open>
  Claim C3 as stated fails. A first run with an empty cache fetches the two checksums of
  SRR1 and writes the line; a second run loads it, and the second checksum then ends with
  a newline.
\<close>

theorem reloaded_checksum_has_newline:
  "(case fst (get_md5_from_ena ''PRJ1'' True (lab [[''SRR1'']] (Some []) [] Map.empty)) of
      Inr m \<Rightarrow> m ''SRR1'' | Inl e \<Rightarrow> None) = Some [''abc'', ''def'']
   \<and> (case fst (get_md5_from_ena ''PRJ1'' True
                  (snd (get_md5_from_ena ''PRJ1'' True (lab [[''SRR1'']] (Some []) [] Map.empty)))) of
      Inr m \<Rightarrow> m ''SRR1'' | Inl e \<Rightarrow> None) = Some [''abc'', ''def'' @ [newline]]"
  by code_simp

end
